theory Spec2Isabelle
  imports Complex_Main
begin

section \<open>Data model\<close>

text \<open>
  The values of \<^verbatim>\<open>utils.py\<close>. A dataset is a list of rows; a row is a Python \<^verbatim>\<open>dict\<close>
  from column name to value, kept here as an association list in insertion order. A cell
  holds what \<^verbatim>\<open>ast.literal_eval\<close> produced:
  \<^item> \<open>Number x\<close> is a finite float, or an int that fits NumPy's 64-bit integer type
    (from \<open>-2^63\<close> to \<open>2^63 - 1\<close>);
  \<^item> \<open>HugeInt n\<close> is a Python int of \<open>2^64\<close> or more, which NumPy can only keep as a
    Python object (other ints are not modelled);
  \<^item> \<open>Text\<close> is a string;
  \<^item> \<open>EmptyList\<close> is \<^verbatim>\<open>[]\<close>, the placeholder that \<^verbatim>\<open>group_columns\<close> stores under
    \<^verbatim>\<open>'Group 1'\<close> before any column is visited.

  A correlation and a threshold are floats: a real number or NaN. Rounding and overflow
  are not modelled. Python exceptions are values of \<open>error\<close>.
\<close>

datatype pyval = Number real | HugeInt int | Text string | EmptyList

datatype pyfloat = NaN | Num real

datatype error = IndexError | KeyError | TypeError | AttributeError

type_synonym row = "(string \<times> pyval) list"

type_synonym assignment = "(string \<times> string list) list"

text \<open>Comparison \<^verbatim>\<open>a > b\<close> of two floats: false as soon as one side is NaN.\<close>

fun float_gt :: "pyfloat \<Rightarrow> pyfloat \<Rightarrow> bool" where
  "float_gt (Num a) (Num b) = (b < a)"
| "float_gt _ _ = False"


subsection \<open>Dictionaries and lists\<close>

text \<open>\<^verbatim>\<open>list(d.keys())\<close>\<close>

definition keys :: "('k \<times> 'v) list \<Rightarrow> 'k list" where
  "keys d = map fst d"

text \<open>\<^verbatim>\<open>d[k]\<close>, raising \<^verbatim>\<open>KeyError\<close> on a missing key.\<close>

definition dict_get :: "('k \<times> 'v) list \<Rightarrow> 'k \<Rightarrow> error + 'v" where
  "dict_get d k = (case map_of d k of None \<Rightarrow> Inl KeyError | Some v \<Rightarrow> Inr v)"

text \<open>\<^verbatim>\<open>d[k] = v\<close>: an existing key keeps its position, a new key goes last.\<close>

fun dict_set :: "('k \<times> 'v) list \<Rightarrow> 'k \<Rightarrow> 'v \<Rightarrow> ('k \<times> 'v) list" where
  "dict_set [] k v = [(k, v)]"
| "dict_set ((k', v') # d) k v =
     (if k' = k then (k, v) # d else (k', v') # dict_set d k v)"

text \<open>\<^verbatim>\<open>xs[i]\<close> for a non-negative index, raising \<^verbatim>\<open>IndexError\<close> out of range.\<close>

definition list_get :: "'a list \<Rightarrow> nat \<Rightarrow> error + 'a" where
  "list_get xs i = (if i < length xs then Inr (xs ! i) else Inl IndexError)"

text \<open>\<^verbatim>\<open>str(n)\<close> for a non-negative integer: its decimal digits.\<close>

definition digit_char :: "nat \<Rightarrow> char" where
  "digit_char d = ''0123456789'' ! d"

fun str_nat :: "nat \<Rightarrow> string" where
  "str_nat n = (if n < 10 then [digit_char n] else str_nat (n div 10) @ [digit_char (n mod 10)])"

declare str_nat.simps [simp del]

subsection \<open>Column extraction\<close>

text \<open>\<^verbatim>\<open>row[list(row.keys())[val]]\<close>: the value under the row's own \<open>val\<close>-th key.\<close>

definition row_value :: "row \<Rightarrow> nat \<Rightarrow> error + pyval" where
  "row_value r val =
     (case list_get (keys r) val of Inl e \<Rightarrow> Inl e | Inr k \<Rightarrow> dict_get r k)"

text \<open>\<^verbatim>\<open>[row[list(row.keys())[val]] for row in data]\<close>\<close>

fun column_values :: "row list \<Rightarrow> nat \<Rightarrow> error + pyval list" where
  "column_values [] val = Inr []"
| "column_values (r # rs) val =
     (case row_value r val of
        Inl e \<Rightarrow> Inl e
      | Inr v \<Rightarrow> (case column_values rs val of Inl e \<Rightarrow> Inl e | Inr vs \<Rightarrow> Inr (v # vs)))"

section \<open>correlation\_matrix\<close>

text \<open>
  \<^verbatim>\<open>np.corrcoef(x, y)[0][1]\<close> is a call into NumPy, modelled from its definition in exact
  real arithmetic: the sample covariance (\<^verbatim>\<open>ddof=1\<close>) divided by the standard deviation of
  \<open>x\<close>, then by that of \<open>y\<close>, then clipped to \<open>[-1, 1]\<close>. A single observation or a vector
  of variance zero makes NumPy divide zero by zero, which gives NaN (with a warning, no
  exception).

  Where the doubles of NumPy depart from the reals, the model does not follow them:
  \<^item> a constant column has variance zero here, and in NumPy only when its mean is computed
    exactly (a column of fives); a column of \<open>0.1\<close> gets a tiny variance there and the
    coefficient \<open>1.0\<close> with another such column;
  \<^item> the two division orders \<open>(c / sx) / sy\<close> and \<open>(c / sy) / sx\<close> agree here and may differ
    in the last bit there;
  \<^item> nothing overflows here.

  So \<open>pearson\<close> is used below on inputs where every intermediate value is exact or the
  comparison made is far from the rounding error, and no statement about all datasets
  rests on its values.

  What NumPy cannot turn into an array of 64-bit numbers makes it raise: a \<^verbatim>\<open>TypeError\<close>
  on text, an \<^verbatim>\<open>AttributeError\<close> on an array of Python objects, which is what an int of
  \<open>2^64\<close> or more gives. The model reports the first such cell.
\<close>

fun as_reals :: "pyval list \<Rightarrow> error + real list" where
  "as_reals [] = Inr []"
| "as_reals (Number x # vs) =
     (case as_reals vs of Inl e \<Rightarrow> Inl e | Inr xs \<Rightarrow> Inr (x # xs))"
| "as_reals (HugeInt n # vs) = Inl AttributeError"
| "as_reals (_ # vs) = Inl TypeError"

definition mean :: "real list \<Rightarrow> real" where
  "mean xs = sum_list xs / real (length xs)"

definition cov :: "real list \<Rightarrow> real list \<Rightarrow> real" where
  "cov xs ys =
     sum_list (map2 (\<lambda>x y. (x - mean xs) * (y - mean ys)) xs ys) / (real (length xs) - 1)"

definition clip :: "real \<Rightarrow> real" where
  "clip c = max (- 1) (min 1 c)"

definition pearson :: "real list \<Rightarrow> real list \<Rightarrow> pyfloat" where
  "pearson xs ys =
     (if length xs < 2 \<or> cov xs xs = 0 \<or> cov ys ys = 0 then NaN
      else Num (clip (cov xs ys / sqrt (cov xs xs) / sqrt (cov ys ys))))"

definition corrcoef :: "pyval list \<Rightarrow> pyval list \<Rightarrow> error + pyfloat" where
  "corrcoef x y =
     (case as_reals x of
        Inl e \<Rightarrow> Inl e
      | Inr xs \<Rightarrow> (case as_reals y of Inl e \<Rightarrow> Inl e | Inr ys \<Rightarrow> Inr (pearson xs ys)))"

text \<open>The inner loop \<^verbatim>\<open>for j in range(num_cols)\<close>, building \<^verbatim>\<open>col_cors\<close> for one \<open>i\<close>.\<close>

fun col_cors_loop :: "row list \<Rightarrow> nat \<Rightarrow> nat list \<Rightarrow> error + pyfloat list" where
  "col_cors_loop data i [] = Inr []"
| "col_cors_loop data i (j # js) =
     (case column_values data i of
        Inl e \<Rightarrow> Inl e
      | Inr x \<Rightarrow>
     (case column_values data j of
        Inl e \<Rightarrow> Inl e
      | Inr y \<Rightarrow>
     (case corrcoef x y of
        Inl e \<Rightarrow> Inl e
      | Inr cor \<Rightarrow>
     (case col_cors_loop data i js of
        Inl e \<Rightarrow> Inl e
      | Inr col_cors \<Rightarrow> Inr (cor # col_cors)))))"

text \<open>The outer loop \<^verbatim>\<open>for i in range(num_cols)\<close>, building \<^verbatim>\<open>correlations\<close>.\<close>

fun correlations_loop :: "row list \<Rightarrow> nat \<Rightarrow> nat list \<Rightarrow> error + pyfloat list list" where
  "correlations_loop data num_cols [] = Inr []"
| "correlations_loop data num_cols (i # is) =
     (case col_cors_loop data i [0..<num_cols] of
        Inl e \<Rightarrow> Inl e
      | Inr col_cors \<Rightarrow>
     (case correlations_loop data num_cols is of
        Inl e \<Rightarrow> Inl e
      | Inr correlations \<Rightarrow> Inr (col_cors # correlations)))"

text \<open>
  The first component of the result of \<^verbatim>\<open>correlation_matrix\<close> (the second, a Plotly
  figure of the same numbers, is rendering). \<^verbatim>\<open>data[0]\<close> raises on an empty dataset.
\<close>

definition correlation_matrix :: "row list \<Rightarrow> error + pyfloat list list" where
  "correlation_matrix data =
     (case data of
        [] \<Rightarrow> Inl IndexError
      | row0 # _ \<Rightarrow> correlations_loop data (length row0) [0..<length row0])"

section \<open>group\_columns\<close>

text \<open>
  \<^verbatim>\<open>cor_threshold\<close> is a float, as the docstring has it, and \<^verbatim>\<open>cors\<close> is a list of lists
  of floats, as \<^verbatim>\<open>correlation_matrix\<close> returns it. The callback \<^verbatim>\<open>update_dashboard\<close> can
  also pass \<^verbatim>\<open>None\<close> as the threshold, when the input box is empty; the comparison
  \<^verbatim>\<open>correlation_val > cor_threshold\<close> then raises a \<^verbatim>\<open>TypeError\<close>. Such a call is outside
  this model: everything below is about float thresholds and float entries.
\<close>

record group_state =
  group_label :: nat
  group_labels_with_columns :: assignment
  data_grouped :: "row list"

definition init_group :: string where
  "init_group = ''Group 1''"

text \<open>
  The loop \<^verbatim>\<open>for leftover in range(val+1, len(col_list), 1)\<close>. The list it appends to is
  \<^verbatim>\<open>group_labels_with_columns[group_name]\<close>, which nothing else touches meanwhile; the
  model carries that list as \<open>members\<close> and stores it when the loop is over.
\<close>

fun scan_leftovers ::
  "pyfloat list list \<Rightarrow> pyfloat \<Rightarrow> string list \<Rightarrow> nat \<Rightarrow> nat list \<Rightarrow> string list
     \<Rightarrow> error + string list" where
  "scan_leftovers cors cor_threshold col_list val [] members = Inr members"
| "scan_leftovers cors cor_threshold col_list val (leftover # rest) members =
     (case list_get cors val of
        Inl e \<Rightarrow> Inl e
      | Inr cors_val \<Rightarrow>
     (case list_get cors_val leftover of
        Inl e \<Rightarrow> Inl e
      | Inr correlation_val \<Rightarrow>
          scan_leftovers cors cor_threshold col_list val rest
            (if float_gt correlation_val cor_threshold
             then members @ [col_list ! leftover] else members)))"

text \<open>
  \<^verbatim>\<open>for i, group_val in enumerate(group_vals): data_grouped[i][group_name] = group_val\<close>.
  Both lists have one entry per row of the dataset.
\<close>

definition store_group_vals :: "row list \<Rightarrow> string \<Rightarrow> pyval list \<Rightarrow> row list" where
  "store_group_vals grouped group_name group_vals =
     map2 (\<lambda>g group_val. dict_set g group_name group_val) grouped group_vals"

text \<open>
  The loop \<^verbatim>\<open>for col in col_list\<close>; \<open>val\<close> is the counter after \<^verbatim>\<open>val = val + 1\<close>, the index
  of \<open>col\<close>. The test \<^verbatim>\<open>col not in group_cols\<close> reads the members of every group so far.
\<close>

fun group_loop ::
  "row list \<Rightarrow> pyfloat list list \<Rightarrow> pyfloat \<Rightarrow> string list \<Rightarrow> string list \<Rightarrow> nat
     \<Rightarrow> group_state \<Rightarrow> error + group_state" where
  "group_loop data cors cor_threshold col_list [] val s = Inr s"
| "group_loop data cors cor_threshold col_list (col # cols) val s =
     (if col \<in> set (concat (map snd (group_labels_with_columns s)))
      then group_loop data cors cor_threshold col_list cols (Suc val) s
      else
        (let label = group_label s + 1;
             group_name = ''Group '' @ str_nat label
         in case column_values data val of
              Inl e \<Rightarrow> Inl e
            | Inr group_vals \<Rightarrow>
           (case scan_leftovers cors cor_threshold col_list val
                   [val + 1..<length col_list] [col] of
              Inl e \<Rightarrow> Inl e
            | Inr members \<Rightarrow>
                group_loop data cors cor_threshold col_list cols (Suc val)
                  \<lparr>group_label = label,
                   group_labels_with_columns =
                     dict_set (group_labels_with_columns s) group_name members,
                   data_grouped = store_group_vals (data_grouped s) group_name group_vals\<rparr>)))"

definition init_state :: "row list \<Rightarrow> group_state" where
  "init_state data =
     \<lparr>group_label = 0,
      group_labels_with_columns = [(init_group, [])],
      data_grouped = map (\<lambda>_. [(init_group, EmptyList)]) data\<rparr>"

definition group_columns ::
  "row list \<Rightarrow> pyfloat list list \<Rightarrow> pyfloat \<Rightarrow> error + (row list \<times> assignment)" where
  "group_columns data cors cor_threshold =
     (case data of
        [] \<Rightarrow> Inl IndexError
      | row0 # _ \<Rightarrow>
          (case group_loop data cors cor_threshold (keys row0) (keys row0) 0
                  (init_state data) of
             Inl e \<Rightarrow> Inl e
           | Inr s \<Rightarrow> Inr (data_grouped s, group_labels_with_columns s)))"

section \<open>Notions used in the proofs\<close>

text \<open>
  The names that the scan started at column \<open>val\<close> appends after the representative: those
  of the later columns whose entry in row \<open>val\<close> of the matrix is above the threshold.
\<close>

definition absorbed :: "pyfloat list list \<Rightarrow> pyfloat \<Rightarrow> string list \<Rightarrow> nat \<Rightarrow> string list" where
  "absorbed cors thr cl val =
     map (\<lambda>l. cl ! l) (filter (\<lambda>l. float_gt (cors ! val ! l) thr) [val + 1..<length cl])"

text \<open>The set \<^verbatim>\<open>group_cols\<close> of the source: every name in some group's list.\<close>

definition group_cols :: "group_state \<Rightarrow> string set" where
  "group_cols s = set (concat (map snd (group_labels_with_columns s)))"

text \<open>
  The invariant of the labels: before the first group is founded the dictionary is the
  initial one; afterwards its keys are \<^verbatim>\<open>'Group 1'\<close> to \<^verbatim>\<open>'Group n'\<close> in this order, \<open>n\<close>
  being the counter.
\<close>

definition labels_ok :: "group_state \<Rightarrow> bool" where
  "labels_ok s \<longleftrightarrow>
     (group_label s = 0 \<and> group_labels_with_columns s = [(init_group, [])]) \<or>
     (0 < group_label s \<and>
      map fst (group_labels_with_columns s)
        = map (\<lambda>k. ''Group '' @ str_nat k) [1..<Suc (group_label s)])"

text \<open>What a run of the loop from state \<open>s\<close> at index \<open>val\<close> guarantees of its final state.\<close>

definition loop_post ::
  "pyfloat list list \<Rightarrow> pyfloat \<Rightarrow> string list \<Rightarrow> string list \<Rightarrow> nat
     \<Rightarrow> group_state \<Rightarrow> group_state \<Rightarrow> bool" where
  "loop_post cors thr cl cols val s s' \<longleftrightarrow>
     labels_ok s' \<and>
     group_cols s \<union> set cols \<subseteq> group_cols s' \<and>
     group_cols s' \<subseteq> group_cols s \<union> set cl \<and>
     group_label s \<le> group_label s' \<and>
     group_label s' \<le> group_label s + length cols \<and>
     (\<forall>e \<in> set (group_labels_with_columns s').
        e \<in> set (group_labels_with_columns s) \<or>
        (\<exists>i\<ge>val. i < length cl \<and> snd e = cl ! i # absorbed cors thr cl i))"

section \<open>Example inputs\<close>

text \<open>The dataset of the specification's scenarios: columns \<open>a\<close>, \<open>b\<close>, \<open>c\<close>, three rows.\<close>

definition abc_data :: "row list" where
  "abc_data =
     [[(''a'', Number 1), (''b'', Number 2), (''c'', Number 10)],
      [(''a'', Number 2), (''b'', Number 4), (''c'', Number 1)],
      [(''a'', Number 3), (''b'', Number 6), (''c'', Number 5)]]"

text \<open>
  Its correlation matrix: \<open>a\<close> and \<open>b\<close> correlate perfectly, and \<open>c\<close> correlates with
  both by \<open>r_ac\<close>, about \<open>-0.55\<close>.
\<close>

definition r_ac :: real where
  "r_ac = - (5 / (2 * sqrt (61 / 3)))"

definition abc_cors :: "pyfloat list list" where
  "abc_cors =
     [[Num 1, Num 1, Num r_ac],
      [Num 1, Num 1, Num r_ac],
      [Num r_ac, Num r_ac, Num 1]]"

text \<open>A matrix for three columns in which only the first two correlate.\<close>

definition ab_cors :: "pyfloat list list" where
  "ab_cors = [[Num 1, Num 1, Num 0], [Num 1, Num 1, Num 0], [Num 0, Num 0, Num 1]]"

text \<open>
  Column \<open>c\<close> correlates with \<open>a\<close> and with \<open>b\<close> above \<open>0.8\<close>, while \<open>a\<close> and \<open>b\<close> stay
  below.
\<close>

definition overlap_cors :: "pyfloat list list" where
  "overlap_cors =
     [[Num 1, Num (7 / 10), Num (9 / 10)],
      [Num (7 / 10), Num 1, Num (9 / 10)],
      [Num (9 / 10), Num (9 / 10), Num 1]]"

text \<open>A chain: \<open>a\<close>-\<open>b\<close> and \<open>b\<close>-\<open>c\<close> are above \<open>0.8\<close>, \<open>a\<close>-\<open>c\<close> is not.\<close>

definition chain_cors :: "pyfloat list list" where
  "chain_cors =
     [[Num 1, Num (9 / 10), Num (7 / 10)],
      [Num (9 / 10), Num 1, Num (9 / 10)],
      [Num (7 / 10), Num (9 / 10), Num 1]]"

text \<open>The matrix of a dataset whose third column is constant.\<close>

definition nan_cors :: "pyfloat list list" where
  "nan_cors = [[Num 1, Num 1, NaN], [Num 1, Num 1, NaN], [NaN, NaN, NaN]]"

text \<open>Grouped datasets: the representatives are \<open>a\<close>, \<open>c\<close> in the first, \<open>a\<close>, \<open>b\<close> in the second.\<close>

definition abc_grouped :: "row list" where
  "abc_grouped =
     [[(''Group 1'', Number 1), (''Group 2'', Number 10)],
      [(''Group 1'', Number 2), (''Group 2'', Number 1)],
      [(''Group 1'', Number 3), (''Group 2'', Number 5)]]"

definition ab_grouped :: "row list" where
  "ab_grouped =
     [[(''Group 1'', Number 1), (''Group 2'', Number 2)],
      [(''Group 1'', Number 2), (''Group 2'', Number 4)],
      [(''Group 1'', Number 3), (''Group 2'', Number 6)]]"

text \<open>
  Four columns and a matrix in which \<open>b\<close> is the centre of a star: it correlates with
  \<open>a\<close> by \<open>0.5\<close> and with \<open>c\<close> and \<open>d\<close> by \<open>0.6\<close>; all other pairs are uncorrelated.
\<close>

definition abcd_data :: "row list" where
  "abcd_data =
     [[(''a'', Number 1), (''b'', Number 2), (''c'', Number 3), (''d'', Number 4)],
      [(''a'', Number 5), (''b'', Number 6), (''c'', Number 7), (''d'', Number 8)]]"

definition star_cors :: "pyfloat list list" where
  "star_cors =
     [[Num 1, Num (1 / 2), Num 0, Num 0],
      [Num (1 / 2), Num 1, Num (3 / 5), Num (3 / 5)],
      [Num 0, Num (3 / 5), Num 1, Num 0],
      [Num 0, Num (3 / 5), Num 0, Num 1]]"

text \<open>A dataset whose rows do not share their keys.\<close>

definition mixed_data :: "row list" where
  "mixed_data =
     [[(''a'', Number 1), (''b'', Number 2)],
      [(''x'', Number 2), (''y'', Number 4)],
      [(''p'', Number 3), (''q'', Number 6)]]"

text \<open>Two constant columns, and the matrix in which every entry is one.\<close>

definition tenth_data :: "row list" where
  "tenth_data =
     [[(''a'', Number (1 / 10)), (''b'', Number (1 / 10))],
      [(''a'', Number (1 / 10)), (''b'', Number (1 / 10))],
      [(''a'', Number (1 / 10)), (''b'', Number (1 / 10))]]"

definition ones_cors :: "pyfloat list list" where
  "ones_cors = [[Num 1, Num 1], [Num 1, Num 1]]"


section \<open>Evaluation of concrete runs\<close>

lemmas run_defs =
  group_columns_def keys_def init_state_def init_group_def str_nat.simps digit_char_def
  list_get_def row_value_def dict_get_def store_group_vals_def upt_conv_Cons Let_def

lemma abc_keys: "keys (hd abc_data) = [''a'', ''b'', ''c'']"
  by (simp add: abc_data_def keys_def)

lemma overlap_run:
  "group_columns abc_data overlap_cors (Num (4 / 5))
     = Inr (ab_grouped, [(''Group 1'', [''a'', ''c'']), (''Group 2'', [''b'', ''c''])])"
  by (simp add: run_defs abc_data_def overlap_cors_def ab_grouped_def)

lemma chain_run:
  "group_columns abc_data chain_cors (Num (4 / 5))
     = Inr (abc_grouped, [(''Group 1'', [''a'', ''b'']), (''Group 2'', [''c''])])"
  by (simp add: run_defs abc_data_def chain_cors_def abc_grouped_def)

lemma nan_run:
  "group_columns abc_data nan_cors (Num (- 2))
     = Inr (abc_grouped, [(''Group 1'', [''a'', ''b'']), (''Group 2'', [''c''])])"
  by (simp add: run_defs abc_data_def nan_cors_def abc_grouped_def)

subsection \<open>The correlation matrix of the scenario dataset\<close>

lemma sqrt_bound: "5 / 2 < sqrt (61 / 3)"
  by (rule real_less_rsqrt) (simp add: power2_eq_square)

lemma r_ac_bounds: "- 1 \<le> r_ac" "r_ac < 0"
proof -
  from sqrt_bound have p: "0 < sqrt (61 / 3)" by linarith
  with sqrt_bound have "5 / (2 * sqrt (61 / 3)) \<le> 1" by (simp add: field_simps)
  then show "- 1 \<le> r_ac" unfolding r_ac_def by linarith
  from p have "0 < 5 / (2 * sqrt (61 / 3))" by simp
  then show "r_ac < 0" unfolding r_ac_def by linarith
qed

lemma clip_r_ac: "clip r_ac = r_ac"
  using r_ac_bounds unfolding clip_def by linarith

lemma var_c: "61 / (3 * sqrt (61 / 3) * sqrt (61 / 3)) = (1::real)"
proof -
  have "sqrt (61 / 3) * sqrt (61 / 3) = (61 / 3 :: real)" by simp
  then have "3 * sqrt (61 / 3) * sqrt (61 / 3) = (61::real)" by (simp add: mult.assoc)
  then show ?thesis by simp
qed

lemma abc_columns:
  "column_values abc_data 0 = Inr [Number 1, Number 2, Number 3]"
  "column_values abc_data (Suc 0) = Inr [Number 2, Number 4, Number 6]"
  "column_values abc_data (Suc (Suc 0)) = Inr [Number 10, Number 1, Number 5]"
  by (simp_all add: abc_data_def keys_def row_value_def list_get_def dict_get_def)

lemma pearson_ab:
  "pearson [1, 2, 3] [1, 2, 3] = Num 1"
  "pearson [1, 2, 3] [2, 4, 6] = Num 1"
  "pearson [2, 4, 6] [1, 2, 3] = Num 1"
  "pearson [2, 4, 6] [2, 4, 6] = Num 1"
  by (simp_all add: pearson_def cov_def mean_def clip_def)

lemma pearson_cc: "pearson [10, 1, 5] [10, 1, 5] = Num 1"
  by (simp add: pearson_def cov_def mean_def clip_def var_c)

lemma pearson_c:
  "pearson [1, 2, 3] [10, 1, 5] = Num r_ac"
  "pearson [10, 1, 5] [1, 2, 3] = Num r_ac"
  "pearson [2, 4, 6] [10, 1, 5] = Num r_ac"
  "pearson [10, 1, 5] [2, 4, 6] = Num r_ac"
proof -
  have e: "- (5 / (sqrt (61 / 3) * 2)) = r_ac" "- (5 / (2 * sqrt (61 / 3))) = r_ac"
    by (simp_all add: r_ac_def mult.commute)
  show "pearson [1, 2, 3] [10, 1, 5] = Num r_ac"
    by (simp add: pearson_def cov_def mean_def e clip_r_ac)
  show "pearson [10, 1, 5] [1, 2, 3] = Num r_ac"
    by (simp add: pearson_def cov_def mean_def e clip_r_ac)
  show "pearson [2, 4, 6] [10, 1, 5] = Num r_ac"
    by (simp add: pearson_def cov_def mean_def e clip_r_ac)
  show "pearson [10, 1, 5] [2, 4, 6] = Num r_ac"
    by (simp add: pearson_def cov_def mean_def e clip_r_ac)
qed

lemma correlation_matrix_nonempty:
  "data \<noteq> [] \<Longrightarrow>
   correlation_matrix data = correlations_loop data (length (hd data)) [0..<length (hd data)]"
  by (cases data) (simp_all add: correlation_matrix_def)

lemma abc_matrix: "correlation_matrix abc_data = Inr abc_cors"
proof -
  have ne: "abc_data \<noteq> []" and len: "length (hd abc_data) = 3"
    by (simp_all add: abc_data_def)
  have "correlation_matrix abc_data = correlations_loop abc_data 3 [0..<3]"
    by (simp only: correlation_matrix_nonempty [OF ne] len)
  also have "\<dots> = Inr abc_cors"
    by (simp add: upt_conv_Cons abc_columns corrcoef_def pearson_ab pearson_cc pearson_c
        abc_cors_def)
  finally show ?thesis .
qed

lemma scenario_a: "group_columns abc_data abc_cors (Num (9 / 10))
     = Inr ([[(''Group 1'', Number 1), (''Group 2'', Number 10)],
             [(''Group 1'', Number 2), (''Group 2'', Number 1)],
             [(''Group 1'', Number 3), (''Group 2'', Number 5)]],
            [(''Group 1'', [''a'', ''b'']), (''Group 2'', [''c''])])"
  using r_ac_bounds by (simp add: run_defs abc_data_def abc_cors_def)

lemma scenario_b: "group_columns abc_data abc_cors (Num (999999 / 1000000))
     = Inr ([[(''Group 1'', Number 1), (''Group 2'', Number 10)],
             [(''Group 1'', Number 2), (''Group 2'', Number 1)],
             [(''Group 1'', Number 3), (''Group 2'', Number 5)]],
            [(''Group 1'', [''a'', ''b'']), (''Group 2'', [''c''])])"
  using r_ac_bounds by (simp add: run_defs abc_data_def abc_cors_def)

section \<open>The inner loops\<close>

lemma scan_leftovers_Inr:
  "scan_leftovers cors thr cl val ls members = Inr ms \<Longrightarrow>
   ms = members @ map (\<lambda>l. cl ! l) (filter (\<lambda>l. float_gt (cors ! val ! l) thr) ls)"
proof (induction ls arbitrary: members)
  case Nil
  then show ?case by simp
next
  case (Cons l ls)
  from Cons.prems obtain r c where r: "list_get cors val = Inr r" and c: "list_get r l = Inr c"
    and rest: "scan_leftovers cors thr cl val ls
                 (if float_gt c thr then members @ [cl ! l] else members) = Inr ms"
    by (auto split: sum.splits)
  from r c have cv: "c = cors ! val ! l" by (auto simp: list_get_def split: if_splits)
  from Cons.IH [OF rest] cv show ?case by simp
qed

lemma scan_leftovers_Inl:
  "scan_leftovers cors thr cl val ls members = Inl e \<Longrightarrow> e = IndexError"
  by (induction ls arbitrary: members)
     (auto simp: list_get_def split: sum.splits if_splits)

lemma scan_leftovers_ok:
  "val < length cors \<Longrightarrow> \<forall>l \<in> set ls. l < length (cors ! val) \<Longrightarrow>
   \<exists>ms. scan_leftovers cors thr cl val ls members = Inr ms"
  by (induction ls arbitrary: members) (auto simp: list_get_def)

lemma scan_leftovers_absorbed:
  "scan_leftovers cors thr cl val [val + 1..<length cl] [col] = Inr ms \<Longrightarrow>
   ms = col # absorbed cors thr cl val"
  by (drule scan_leftovers_Inr) (simp add: absorbed_def)

lemma set_absorbed: "set (absorbed cors thr cl val) \<subseteq> set cl"
  by (auto simp: absorbed_def)

lemma absorbed_index:
  "x \<in> set (absorbed cors thr cl i) \<longleftrightarrow>
   (\<exists>l. i < l \<and> l < length cl \<and> float_gt (cors ! i ! l) thr \<and> x = cl ! l)"
  by (auto simp: absorbed_def Suc_le_eq)

lemma row_value_Inl: "row_value r val = Inl e \<Longrightarrow> e = IndexError"
proof -
  assume a: "row_value r val = Inl e"
  show ?thesis
  proof (cases "val < length r")
    case True
    then have "fst (r ! val) \<in> fst ` set r" by simp
    then have "map_of r (fst (r ! val)) \<noteq> None" by (simp add: map_of_eq_None_iff)
    with True a show ?thesis
      by (auto simp: row_value_def list_get_def keys_def dict_get_def split: option.splits)
  next
    case False
    with a show ?thesis by (simp add: row_value_def list_get_def keys_def)
  qed
qed

lemma row_value_ok: "val < length r \<Longrightarrow> \<exists>v. row_value r val = Inr v"
proof -
  assume a: "val < length r"
  then have "fst (r ! val) \<in> fst ` set r" by simp
  then have "map_of r (fst (r ! val)) \<noteq> None" by (simp add: map_of_eq_None_iff)
  with a show ?thesis
    by (auto simp: row_value_def list_get_def keys_def dict_get_def split: option.splits)
qed

lemma column_values_Inl: "column_values data val = Inl e \<Longrightarrow> e = IndexError"
  by (induction data arbitrary: e) (auto split: sum.splits dest: row_value_Inl)

lemma column_values_ok:
  "\<forall>r \<in> set data. val < length r \<Longrightarrow> \<exists>vs. column_values data val = Inr vs"
proof (induction data)
  case Nil
  show ?case by simp
next
  case (Cons r rs)
  then obtain v where "row_value r val = Inr v" using row_value_ok [of val r] by auto
  moreover from Cons obtain vs where "column_values rs val = Inr vs" by auto
  ultimately show ?case by simp
qed

section \<open>Group labels\<close>

text \<open>\<^verbatim>\<open>str\<close> is injective, so the label of a new group is a new key.\<close>

lemma digit_char_inj: "a < 10 \<Longrightarrow> b < 10 \<Longrightarrow> digit_char a = digit_char b \<Longrightarrow> a = b"
proof -
  assume a: "a < 10" and b: "b < 10" and e: "digit_char a = digit_char b"
  have d: "distinct ''0123456789''" by simp
  have l: "length ''0123456789'' = 10" by simp
  from d a b e l show ?thesis
    unfolding digit_char_def by (metis nth_eq_iff_index_eq)
qed

lemma str_nat_nonempty: "str_nat n \<noteq> []"
  by (subst str_nat.simps) simp

lemma str_nat_inj: "str_nat m = str_nat n \<Longrightarrow> m = n"
proof (induction m arbitrary: n rule: str_nat.induct)
  case (1 m)
  show ?case
  proof (cases "m < 10")
    case True
    note m = this
    show ?thesis
    proof (cases "n < 10")
      case True
      with m "1.prems" show ?thesis
        by (simp add: str_nat.simps [of m] str_nat.simps [of n] digit_char_inj)
    next
      case False
      with m "1.prems" str_nat_nonempty [of "n div 10"] show ?thesis
        by (simp add: str_nat.simps [of m] str_nat.simps [of n])
    qed
  next
    case False
    note m = this
    show ?thesis
    proof (cases "n < 10")
      case True
      with m "1.prems" str_nat_nonempty [of "m div 10"] show ?thesis
        by (simp add: str_nat.simps [of m] str_nat.simps [of n])
    next
      case False
      with m "1.prems" have e: "str_nat (m div 10) = str_nat (n div 10)"
        and d: "digit_char (m mod 10) = digit_char (n mod 10)"
        by (simp_all add: str_nat.simps [of m] str_nat.simps [of n])
      from "1.IH" [OF m e] have "m div 10 = n div 10" .
      moreover from d have "m mod 10 = n mod 10" by (simp add: digit_char_inj)
      ultimately show ?thesis by (metis div_mult_mod_eq)
    qed
  qed
qed

lemma dict_set_fresh: "k \<notin> fst ` set d \<Longrightarrow> dict_set d k v = d @ [(k, v)]"
  by (induction d) auto

lemma set_dict_set_subset: "set (dict_set d k v) \<subseteq> insert (k, v) (set d)"
  by (induction d) (auto split: if_splits)

lemma new_label_fresh:
  "0 < n \<Longrightarrow> ''Group '' @ str_nat (Suc n) \<notin> (\<lambda>k. ''Group '' @ str_nat k) ` set [1..<Suc n]"
  by (auto dest: str_nat_inj)

lemma label_one: "''Group '' @ str_nat (Suc 0) = init_group"
  by (simp add: init_group_def str_nat.simps digit_char_def)

lemma dict_set_first_label:
  "group_label s = 0 \<Longrightarrow> group_labels_with_columns s = [(init_group, [])] \<Longrightarrow>
   dict_set (group_labels_with_columns s) (''Group '' @ str_nat (group_label s + 1)) members
     = [(init_group, members)]"
  using label_one by simp

lemma dict_set_next_label:
  assumes "group_label s \<noteq> 0"
    and k: "map fst (group_labels_with_columns s)
      = map (\<lambda>k. ''Group '' @ str_nat k) [1..<Suc (group_label s)]"
  shows "dict_set (group_labels_with_columns s) (''Group '' @ str_nat (Suc (group_label s))) members
      = group_labels_with_columns s @ [(''Group '' @ str_nat (Suc (group_label s)), members)]"
proof -
  from assms(1) have pos: "0 < group_label s" by simp
  have eq: "fst ` set (group_labels_with_columns s)
      = (\<lambda>k. ''Group '' @ str_nat k) ` set [1..<Suc (group_label s)]"
    using arg_cong [OF k, of set] by (simp only: set_map)
  have "''Group '' @ str_nat (Suc (group_label s)) \<notin> fst ` set (group_labels_with_columns s)"
    unfolding eq by (rule new_label_fresh [OF pos])
  then show ?thesis
    by (rule dict_set_fresh)
qed

lemma labels_ok_zero:
  "labels_ok s \<Longrightarrow> group_label s = 0 \<Longrightarrow> group_labels_with_columns s = [(init_group, [])]"
  by (simp add: labels_ok_def)

lemma labels_ok_pos:
  "labels_ok s \<Longrightarrow> group_label s \<noteq> 0 \<Longrightarrow>
   map fst (group_labels_with_columns s)
     = map (\<lambda>k. ''Group '' @ str_nat k) [1..<Suc (group_label s)]"
  by (simp add: labels_ok_def)

lemma founder_step_labels_ok:
  assumes "labels_ok s"
  shows "labels_ok \<lparr>group_label = group_label s + 1,
           group_labels_with_columns =
             dict_set (group_labels_with_columns s) (''Group '' @ str_nat (group_label s + 1)) members,
           data_grouped = g\<rparr>"
proof (cases "group_label s = 0")
  case True
  from dict_set_first_label [OF True labels_ok_zero [OF assms True], of members] True label_one
  show ?thesis unfolding labels_ok_def by simp
next
  case False
  note k = labels_ok_pos [OF assms False]
  from dict_set_next_label [OF False k, of members]
  have "map fst (dict_set (group_labels_with_columns s)
                   (''Group '' @ str_nat (Suc (group_label s))) members)
      = map (\<lambda>k. ''Group '' @ str_nat k) [1..<Suc (Suc (group_label s))]"
    by (simp only: map_append k upt_Suc_append [of 1 "Suc (group_label s)"] list.map fst_conv)
  then show ?thesis unfolding labels_ok_def by simp
qed

lemma founder_step_group_cols:
  assumes "labels_ok s"
  shows "group_cols \<lparr>group_label = group_label s + 1,
           group_labels_with_columns =
             dict_set (group_labels_with_columns s) (''Group '' @ str_nat (group_label s + 1)) members,
           data_grouped = g\<rparr> = group_cols s \<union> set members"
proof (cases "group_label s = 0")
  case True
  from dict_set_first_label [OF True labels_ok_zero [OF assms True], of members]
    labels_ok_zero [OF assms True]
  show ?thesis unfolding group_cols_def by simp
next
  case False
  from dict_set_next_label [OF False labels_ok_pos [OF assms False], of members]
  show ?thesis unfolding group_cols_def by simp
qed

lemma labels_ok_length:
  "labels_ok s \<Longrightarrow> length (group_labels_with_columns s) = max 1 (group_label s)"
proof -
  assume a: "labels_ok s"
  show ?thesis
  proof (cases "group_label s = 0")
    case True
    from labels_ok_zero [OF a True] True show ?thesis by simp
  next
    case False
    from arg_cong [OF labels_ok_pos [OF a False], of length] False show ?thesis by simp
  qed
qed

section \<open>The loop over the columns\<close>

lemma drop_ConsD:
  "col # cols = drop val cl \<Longrightarrow> val < length cl \<and> col = cl ! val \<and> cols = drop (Suc val) cl"
proof -
  assume a: "col # cols = drop val cl"
  then have v: "val < length cl" by (cases "val < length cl") auto
  from Cons_nth_drop_Suc [OF v] a have "col # cols = cl ! val # drop (Suc val) cl" by simp
  with v show ?thesis by simp
qed

lemma group_loop_skip:
  "col \<in> group_cols s \<Longrightarrow>
   group_loop data cors thr cl (col # cols) val s = group_loop data cors thr cl cols (Suc val) s"
  by (simp add: group_cols_def)

lemma group_loop_found:
  assumes "col \<notin> group_cols s"
    and "group_loop data cors thr cl (col # cols) val s = Inr s'"
  shows "\<exists>group_vals members.
           column_values data val = Inr group_vals \<and>
           scan_leftovers cors thr cl val [val + 1..<length cl] [col] = Inr members \<and>
           group_loop data cors thr cl cols (Suc val)
             \<lparr>group_label = group_label s + 1,
              group_labels_with_columns =
                dict_set (group_labels_with_columns s)
                  (''Group '' @ str_nat (group_label s + 1)) members,
              data_grouped =
                store_group_vals (data_grouped s)
                  (''Group '' @ str_nat (group_label s + 1)) group_vals\<rparr> = Inr s'"
  using assms by (simp add: group_cols_def Let_def split: sum.splits)

lemma group_loop_post:
  "group_loop data cors thr cl cols val s = Inr s' \<Longrightarrow> labels_ok s \<Longrightarrow> cols = drop val cl \<Longrightarrow>
   loop_post cors thr cl cols val s s'"
proof (induction cols arbitrary: val s)
  case Nil
  then show ?case by (simp add: loop_post_def)
next
  case (Cons col cols)
  from drop_ConsD [OF Cons.prems(3)]
  have v: "val < length cl" and c: "col = cl ! val" and d: "cols = drop (Suc val) cl"
    by simp_all
  show ?case
  proof (cases "col \<in> group_cols s")
    case True
    with Cons.prems(1) have "group_loop data cors thr cl cols (Suc val) s = Inr s'"
      by (simp only: group_loop_skip)
    from Cons.IH [OF this Cons.prems(2) d]
    have p: "loop_post cors thr cl cols (Suc val) s s'" .
    with True show ?thesis
      unfolding loop_post_def by (auto intro: Suc_leD)
  next
    case False
    from group_loop_found [OF False Cons.prems(1)]
    obtain group_vals members where
      sc: "scan_leftovers cors thr cl val [val + 1..<length cl] [col] = Inr members" and
      lp: "group_loop data cors thr cl cols (Suc val)
             \<lparr>group_label = group_label s + 1,
              group_labels_with_columns =
                dict_set (group_labels_with_columns s)
                  (''Group '' @ str_nat (group_label s + 1)) members,
              data_grouped =
                store_group_vals (data_grouped s)
                  (''Group '' @ str_nat (group_label s + 1)) group_vals\<rparr> = Inr s'"
      (is "group_loop _ _ _ _ _ _ ?s1 = _")
      by blast
    from scan_leftovers_absorbed [OF sc] c
    have m: "members = cl ! val # absorbed cors thr cl val" by simp
    have ok1: "labels_ok ?s1" by (rule founder_step_labels_ok [OF Cons.prems(2)])
    have gc1: "group_cols ?s1 = group_cols s \<union> set members"
      by (rule founder_step_group_cols [OF Cons.prems(2)])
    have e1: "set (group_labels_with_columns ?s1)
        \<subseteq> insert (''Group '' @ str_nat (group_label s + 1), members)
              (set (group_labels_with_columns s))"
      using set_dict_set_subset by simp
    have gl1: "group_label ?s1 = group_label s + 1" by simp
    from Cons.IH [OF lp ok1 d]
    have p: "loop_post cors thr cl cols (Suc val) ?s1 s'" .
    have ms: "set members \<subseteq> set cl" using m v set_absorbed [of cors thr cl val] by auto
    have cm: "col \<in> set members" using m c by simp
    from p have "labels_ok s'" by (simp add: loop_post_def)
    moreover from p gc1 cm have "group_cols s \<union> set (col # cols) \<subseteq> group_cols s'"
      unfolding loop_post_def by auto
    moreover from p gc1 ms have "group_cols s' \<subseteq> group_cols s \<union> set cl"
      unfolding loop_post_def by auto
    moreover from p gl1 have "group_label s \<le> group_label s'"
      unfolding loop_post_def by linarith
    moreover from p gl1 have "group_label s' \<le> group_label s + length (col # cols)"
      unfolding loop_post_def by simp
    moreover have "\<forall>e \<in> set (group_labels_with_columns s').
        e \<in> set (group_labels_with_columns s) \<or>
        (\<exists>i\<ge>val. i < length cl \<and> snd e = cl ! i # absorbed cors thr cl i)"
    proof
      fix e assume "e \<in> set (group_labels_with_columns s')"
      with p have "e \<in> set (group_labels_with_columns ?s1) \<or>
          (\<exists>i\<ge>Suc val. i < length cl \<and> snd e = cl ! i # absorbed cors thr cl i)"
        unfolding loop_post_def by blast
      then show "e \<in> set (group_labels_with_columns s) \<or>
          (\<exists>i\<ge>val. i < length cl \<and> snd e = cl ! i # absorbed cors thr cl i)"
      proof
        assume "e \<in> set (group_labels_with_columns ?s1)"
        with e1 have "e = (''Group '' @ str_nat (group_label s + 1), members) \<or>
            e \<in> set (group_labels_with_columns s)" by blast
        with m v show ?thesis by auto
      next
        assume "\<exists>i\<ge>Suc val. i < length cl \<and> snd e = cl ! i # absorbed cors thr cl i"
        then show ?thesis using Suc_leD by blast
      qed
    qed
    ultimately show ?thesis unfolding loop_post_def by blast
  qed
qed

section \<open>What group\_columns returns\<close>

lemma labels_ok_init: "labels_ok (init_state data)"
  by (simp add: labels_ok_def init_state_def)

lemma group_cols_init: "group_cols (init_state data) = {}"
  by (simp add: group_cols_def init_state_def)

lemma group_columns_InrD:
  assumes "group_columns data cors thr = Inr (grouped, ga)"
  shows "\<exists>s'. group_loop data cors thr (keys (hd data)) (keys (hd data)) 0 (init_state data) = Inr s'
           \<and> grouped = data_grouped s' \<and> ga = group_labels_with_columns s'
           \<and> loop_post cors thr (keys (hd data)) (keys (hd data)) 0 (init_state data) s'"
proof -
  from assms obtain s' where
    l: "group_loop data cors thr (keys (hd data)) (keys (hd data)) 0 (init_state data) = Inr s'"
    and g: "grouped = data_grouped s'" and a: "ga = group_labels_with_columns s'"
    by (auto simp: group_columns_def split: list.splits sum.splits)
  from group_loop_post [OF l labels_ok_init] have
    "loop_post cors thr (keys (hd data)) (keys (hd data)) 0 (init_state data) s'" by simp
  with l g a show ?thesis by blast
qed

lemma group_columns_names:
  assumes "group_columns data cors thr = Inr (grouped, ga)"
  shows "set (concat (map snd ga)) = set (keys (hd data))"
proof -
  from group_columns_InrD [OF assms] obtain s' where
    a: "ga = group_labels_with_columns s'" and
    p: "loop_post cors thr (keys (hd data)) (keys (hd data)) 0 (init_state data) s'" by blast
  from p have "set (keys (hd data)) \<subseteq> group_cols s'" and "group_cols s' \<subseteq> set (keys (hd data))"
    unfolding loop_post_def group_cols_init by simp_all
  with a show ?thesis unfolding group_cols_def by simp
qed

lemma group_columns_entries:
  assumes "group_columns data cors thr = Inr (grouped, ga)" and "(label, members) \<in> set ga"
  shows "members = [] \<or>
         (\<exists>i < length (keys (hd data)).
            members = keys (hd data) ! i # absorbed cors thr (keys (hd data)) i)"
proof -
  from group_columns_InrD [OF assms(1)] obtain s' where
    a: "ga = group_labels_with_columns s'" and
    p: "loop_post cors thr (keys (hd data)) (keys (hd data)) 0 (init_state data) s'" by blast
  from p a assms(2) have
    "(label, members) \<in> set (group_labels_with_columns (init_state data)) \<or>
     (\<exists>i\<ge>0. i < length (keys (hd data)) \<and>
        snd (label, members) = keys (hd data) ! i # absorbed cors thr (keys (hd data)) i)"
    unfolding loop_post_def by blast
  then show ?thesis by (auto simp: init_state_def)
qed

lemma group_columns_length:
  assumes "group_columns data cors thr = Inr (grouped, ga)"
  shows "1 \<le> length ga \<and> length ga \<le> max 1 (length (keys (hd data)))"
proof -
  from group_columns_InrD [OF assms] obtain s' where
    a: "ga = group_labels_with_columns s'" and
    p: "loop_post cors thr (keys (hd data)) (keys (hd data)) 0 (init_state data) s'" by blast
  from p have "labels_ok s'" and "group_label s' \<le> length (keys (hd data))"
    unfolding loop_post_def by (simp_all add: init_state_def)
  with labels_ok_length [of s'] a show ?thesis by simp
qed

lemma distinct_founder:
  assumes "distinct cl" and "i < length cl"
  shows "distinct (cl ! i # absorbed cors thr cl i)"
proof -
  have "distinct (map (\<lambda>l. cl ! l) (i # filter (\<lambda>l. float_gt (cors ! i ! l) thr) [i + 1..<length cl]))"
  proof (rule iffD2 [OF distinct_map], intro conjI)
    show "distinct (i # filter (\<lambda>l. float_gt (cors ! i ! l) thr) [i + 1..<length cl])"
      by simp
    show "inj_on (\<lambda>l. cl ! l)
            (set (i # filter (\<lambda>l. float_gt (cors ! i ! l) thr) [i + 1..<length cl]))"
      using assms by (auto simp: inj_on_def nth_eq_iff_index_eq)
  qed
  then show ?thesis by (simp add: absorbed_def)
qed

lemma founder_rest:
  assumes "group_columns data cors thr = Inr (grouped, ga)"
    and "distinct (keys (hd data))"
    and "(label, keys (hd data) ! i # rest) \<in> set ga"
    and "i < length (keys (hd data))"
  shows "rest = absorbed cors thr (keys (hd data)) i"
proof -
  from group_columns_entries [OF assms(1,3)] obtain i' where
    i': "i' < length (keys (hd data))" and
    e: "keys (hd data) ! i # rest = keys (hd data) ! i' # absorbed cors thr (keys (hd data)) i'"
    by auto
  from e have "keys (hd data) ! i = keys (hd data) ! i'" by simp
  with assms(2,4) i' have "i = i'" by (simp add: nth_eq_iff_index_eq)
  with e show ?thesis by simp
qed

section \<open>Every column is grouped, some more than once\<close>

text \<open>
  C1, as stated, fails: with \<open>overlap_cors\<close> and threshold \<open>0.8\<close> column \<open>c\<close> is absorbed by
  \<open>a\<close> and again by \<open>b\<close>, which is not in a group when its turn comes and so founds one.
\<close>

theorem partition_counterexample:
  "group_columns abc_data overlap_cors (Num (4 / 5))
     = Inr (ab_grouped, [(''Group 1'', [''a'', ''c'']), (''Group 2'', [''b'', ''c''])]) \<and>
   \<not> distinct (concat (map snd [(''Group 1'', [''a'', ''c'']), (''Group 2'', [''b'', ''c''])]))"
  using overlap_run by simp

text \<open>
  C1, amended. When \<open>group_columns\<close> returns, the names in the group lists are exactly the
  column names of the dataset (none is missing, none is foreign), and no list repeats a
  name. A name may occur in the lists of several groups.
\<close>

theorem group_columns_covers_columns:
  assumes "group_columns data cors cor_threshold = Inr (grouped, ga)"
    and "distinct (keys (hd data))"
  shows "set (concat (map snd ga)) = set (keys (hd data)) \<and>
         (\<forall>members \<in> snd ` set ga. distinct members)"
proof
  show "set (concat (map snd ga)) = set (keys (hd data))"
    by (rule group_columns_names [OF assms(1)])
  show "\<forall>members \<in> snd ` set ga. distinct members"
  proof
    fix members assume "members \<in> snd ` set ga"
    then obtain label where "(label, members) \<in> set ga" by auto
    from group_columns_entries [OF assms(1) this]
    show "distinct members"
    proof
      assume "members = []"
      then show ?thesis by simp
    next
      assume "\<exists>i < length (keys (hd data)).
            members = keys (hd data) ! i # absorbed cors cor_threshold (keys (hd data)) i"
      with distinct_founder [OF assms(2)] show ?thesis by blast
    qed
  qed
qed

theorem group_columns_covers_columns_witness:
  "group_columns abc_data overlap_cors (Num (4 / 5))
     = Inr (ab_grouped, [(''Group 1'', [''a'', ''c'']), (''Group 2'', [''b'', ''c''])]) \<and>
   distinct (keys (hd abc_data)) \<and>
   set (concat (map snd [(''Group 1'', [''a'', ''c'']), (''Group 2'', [''b'', ''c''])]))
     = set (keys (hd abc_data)) \<and>
   distinct [''a'', ''c''] \<and> distinct [''b'', ''c'']"
proof -
  have d: "distinct (keys (hd abc_data))" by (simp add: abc_keys)
  from group_columns_covers_columns [OF overlap_run d] overlap_run d
  show ?thesis by simp
qed

section \<open>Absorption is decided by the representative alone\<close>

text \<open>
  C2, as stated, fails: in \<open>chain_cors\<close> the pairs \<open>a\<close>-\<open>b\<close> and \<open>b\<close>-\<open>c\<close> are above the
  threshold and \<open>a\<close>-\<open>c\<close> is not; \<open>b\<close> joins the group of \<open>a\<close>, is skipped when its turn
  comes, and \<open>c\<close> founds a group of its own.
\<close>

theorem transitive_counterexample:
  "float_gt (chain_cors ! 0 ! 1) (Num (4 / 5)) \<and>
   float_gt (chain_cors ! 1 ! 2) (Num (4 / 5)) \<and>
   \<not> float_gt (chain_cors ! 0 ! 2) (Num (4 / 5)) \<and>
   group_columns abc_data chain_cors (Num (4 / 5))
     = Inr (abc_grouped, [(''Group 1'', [''a'', ''b'']), (''Group 2'', [''c''])]) \<and>
   ''c'' \<notin> set [''a'', ''b'']"
  using chain_run by (simp add: chain_cors_def)

text \<open>
  C2, amended. Let column \<open>i\<close> be the representative of a group, and \<open>j\<close>, \<open>k\<close> be later
  columns. If the entry \<open>cors[i][j]\<close> is above the threshold and \<open>cors[i][k]\<close> is not, the
  group of \<open>i\<close> holds column \<open>j\<close> and does not hold column \<open>k\<close>, whatever \<open>cors[j][k]\<close> is.
\<close>

theorem absorption_is_direct:
  assumes "group_columns data cors cor_threshold = Inr (grouped, ga)"
    and "distinct (keys (hd data))"
    and "(label, keys (hd data) ! i # rest) \<in> set ga"
    and "i < j" and "j < length (keys (hd data))"
    and "i < k" and "k < length (keys (hd data))"
    and "float_gt (cors ! i ! j) cor_threshold"
    and "\<not> float_gt (cors ! i ! k) cor_threshold"
  shows "keys (hd data) ! j \<in> set rest \<and> keys (hd data) ! k \<notin> set rest"
proof
  from assms(4,5) have i: "i < length (keys (hd data))" by simp
  note r = founder_rest [OF assms(1-3) i]
  from assms(4,5,8) show "keys (hd data) ! j \<in> set rest"
    unfolding r absorbed_index by blast
  show "keys (hd data) ! k \<notin> set rest"
  proof
    assume "keys (hd data) ! k \<in> set rest"
    then obtain l where
      l: "l < length (keys (hd data))" and g: "float_gt (cors ! i ! l) cor_threshold"
      and e: "keys (hd data) ! k = keys (hd data) ! l"
      unfolding r absorbed_index by blast
    from e assms(2,7) l have "k = l" by (simp add: nth_eq_iff_index_eq)
    with g assms(9) show False by simp
  qed
qed

theorem absorption_is_direct_witness:
  "group_columns abc_data chain_cors (Num (4 / 5))
     = Inr (abc_grouped, [(''Group 1'', [''a'', ''b'']), (''Group 2'', [''c''])]) \<and>
   distinct (keys (hd abc_data)) \<and>
   (''Group 1'', keys (hd abc_data) ! 0 # [''b''])
     \<in> set [(''Group 1'', [''a'', ''b'']), (''Group 2'', [''c''])] \<and>
   (0::nat) < 1 \<and> 1 < length (keys (hd abc_data)) \<and>
   (0::nat) < 2 \<and> 2 < length (keys (hd abc_data)) \<and>
   float_gt (chain_cors ! 0 ! 1) (Num (4 / 5)) \<and>
   \<not> float_gt (chain_cors ! 0 ! 2) (Num (4 / 5)) \<and>
   keys (hd abc_data) ! 1 \<in> set [''b''] \<and> keys (hd abc_data) ! 2 \<notin> set [''b'']"
proof -
  have d: "distinct (keys (hd abc_data))" by (simp add: abc_keys)
  have m: "(''Group 1'', keys (hd abc_data) ! 0 # [''b''])
     \<in> set [(''Group 1'', [''a'', ''b'']), (''Group 2'', [''c''])]"
    by (simp add: abc_keys)
  have i: "(0::nat) < 1" "1 < length (keys (hd abc_data))"
    "(0::nat) < 2" "2 < length (keys (hd abc_data))"
    by (simp_all add: abc_keys)
  have g: "float_gt (chain_cors ! 0 ! 1) (Num (4 / 5))"
    "\<not> float_gt (chain_cors ! 0 ! 2) (Num (4 / 5))"
    by (simp_all add: chain_cors_def)
  from absorption_is_direct [OF chain_run d m i g] chain_run d m i g
  show ?thesis by blast
qed

section \<open>The scenarios of the specification\<close>

text \<open>
  C7. On the scenario dataset, \<open>correlation_matrix\<close> returns \<open>abc_cors\<close>, and with it and
  threshold \<open>0.9\<close> \<open>group_columns\<close> returns the assignment
  \<^verbatim>\<open>{'Group 1': ['a', 'b'], 'Group 2': ['c']}\<close> and the grouped dataset \<open>abc_grouped\<close>.
\<close>

theorem scenario_a_result:
  "correlation_matrix abc_data = Inr abc_cors \<and>
   group_columns abc_data abc_cors (Num (9 / 10))
     = Inr ([[(''Group 1'', Number 1), (''Group 2'', Number 10)],
             [(''Group 1'', Number 2), (''Group 2'', Number 1)],
             [(''Group 1'', Number 3), (''Group 2'', Number 5)]],
            [(''Group 1'', [''a'', ''b'']), (''Group 2'', [''c''])])"
  using abc_matrix scenario_a by simp

text \<open>
  C3, as stated, fails: at threshold \<open>0.999999\<close> the assignment is not three singleton
  groups, since the correlation of \<open>a\<close> and \<open>b\<close> is \<open>1\<close>, which is above the threshold.
\<close>

theorem scenario_b_not_singletons:
  "correlation_matrix abc_data = Inr abc_cors \<and>
   float_gt (abc_cors ! 0 ! 1) (Num (999999 / 1000000)) \<and>
   map_sum id snd (group_columns abc_data abc_cors (Num (999999 / 1000000)))
     \<noteq> Inr [(''Group 1'', [''a'']), (''Group 2'', [''b'']), (''Group 3'', [''c''])]"
  using abc_matrix scenario_b by (simp add: abc_cors_def)

text \<open>
  C3, amended. On the scenario dataset with its correlation matrix and threshold
  \<open>0.999999\<close>, \<open>group_columns\<close> returns what it returns at \<open>0.9\<close>: the groups
  \<^verbatim>\<open>{'Group 1': ['a', 'b'], 'Group 2': ['c']}\<close>.
\<close>

theorem scenario_b_result:
  "correlation_matrix abc_data = Inr abc_cors \<and>
   group_columns abc_data abc_cors (Num (999999 / 1000000))
     = Inr ([[(''Group 1'', Number 1), (''Group 2'', Number 10)],
             [(''Group 1'', Number 2), (''Group 2'', Number 1)],
             [(''Group 1'', Number 3), (''Group 2'', Number 5)]],
            [(''Group 1'', [''a'', ''b'']), (''Group 2'', [''c''])])"
  using abc_matrix scenario_b by simp

section \<open>NaN never groups\<close>

text \<open>
  C8, as stated, fails in its last part, that columns of variance zero are never grouped
  with another column: \<open>group_columns\<close> reads the matrix, not the variances. The two
  columns of \<open>tenth_data\<close> are constant, the matrix \<open>ones_cors\<close> (which NumPy computes for
  them in doubles) has no NaN, and at threshold \<open>0.9\<close> they form one group.
\<close>

theorem zero_variance_counterexample:
  "column_values tenth_data 0 = Inr [Number (1 / 10), Number (1 / 10), Number (1 / 10)] \<and>
   column_values tenth_data 1 = Inr [Number (1 / 10), Number (1 / 10), Number (1 / 10)] \<and>
   cov [1 / 10, 1 / 10, 1 / 10] [1 / 10, 1 / 10, 1 / 10] = 0 \<and>
   group_columns tenth_data ones_cors (Num (9 / 10))
     = Inr ([[(''Group 1'', Number (1 / 10))], [(''Group 1'', Number (1 / 10))],
             [(''Group 1'', Number (1 / 10))]],
            [(''Group 1'', [''a'', ''b''])])"
proof -
  have "column_values tenth_data 0 = Inr [Number (1 / 10), Number (1 / 10), Number (1 / 10)]"
    "column_values tenth_data 1 = Inr [Number (1 / 10), Number (1 / 10), Number (1 / 10)]"
    by (simp_all add: tenth_data_def keys_def row_value_def list_get_def dict_get_def)
  moreover have "cov [1 / 10, 1 / 10, 1 / 10] [1 / 10, 1 / 10, 1 / 10] = 0"
    by (simp add: cov_def mean_def)
  moreover have "group_columns tenth_data ones_cors (Num (9 / 10))
     = Inr ([[(''Group 1'', Number (1 / 10))], [(''Group 1'', Number (1 / 10))],
             [(''Group 1'', Number (1 / 10))]],
            [(''Group 1'', [''a'', ''b''])])"
    by (simp add: run_defs tenth_data_def ones_cors_def)
  ultimately show ?thesis by simp
qed

text \<open>
  C8, amended. Let column \<open>i\<close> be the representative of a group that \<open>group_columns\<close>
  returns. If the entry \<open>cors[i][j]\<close> is NaN, the name of column \<open>j\<close> is not among the
  names absorbed into that group, whatever the threshold.
\<close>

theorem nan_never_absorbs:
  assumes "group_columns data cors cor_threshold = Inr (grouped, ga)"
    and "distinct (keys (hd data))"
    and "(label, keys (hd data) ! i # rest) \<in> set ga"
    and "i < length (keys (hd data))" and "j < length (keys (hd data))"
    and "i < length cors" and "j < length (cors ! i)" and "cors ! i ! j = NaN"
  shows "keys (hd data) ! j \<notin> set rest"
proof
  assume "keys (hd data) ! j \<in> set rest"
  with founder_rest [OF assms(1-4)] obtain l where
    l: "l < length (keys (hd data))" and g: "float_gt (cors ! i ! l) cor_threshold"
    and e: "keys (hd data) ! j = keys (hd data) ! l"
    by (auto simp: absorbed_index)
  from e assms(2,5) l have "j = l" by (simp add: nth_eq_iff_index_eq)
  with g assms(8) show False by simp
qed

theorem nan_never_absorbs_witness:
  "group_columns abc_data nan_cors (Num (- 2))
     = Inr (abc_grouped, [(''Group 1'', [''a'', ''b'']), (''Group 2'', [''c''])]) \<and>
   distinct (keys (hd abc_data)) \<and>
   (''Group 1'', keys (hd abc_data) ! 0 # [''b''])
     \<in> set [(''Group 1'', [''a'', ''b'']), (''Group 2'', [''c''])] \<and>
   0 < length (keys (hd abc_data)) \<and> 2 < length (keys (hd abc_data)) \<and>
   0 < length nan_cors \<and> 2 < length (nan_cors ! 0) \<and> nan_cors ! 0 ! 2 = NaN \<and>
   keys (hd abc_data) ! 2 \<notin> set [''b'']"
proof -
  have d: "distinct (keys (hd abc_data))" by (simp add: abc_keys)
  have m: "(''Group 1'', keys (hd abc_data) ! 0 # [''b''])
     \<in> set [(''Group 1'', [''a'', ''b'']), (''Group 2'', [''c''])]"
    by (simp add: abc_keys)
  have i: "0 < length (keys (hd abc_data))" "2 < length (keys (hd abc_data))"
    by (simp_all add: abc_keys)
  have n: "0 < length nan_cors" "2 < length (nan_cors ! 0)" "nan_cors ! 0 ! 2 = NaN"
    by (simp_all add: nan_cors_def)
  from nan_never_absorbs [OF nan_run d m i n] nan_run d m i n
  show ?thesis by blast
qed

section \<open>The scan reads the matrix above the diagonal only\<close>

lemma scan_leftovers_lower_update:
  assumes "j \<le> i" and "\<forall>l \<in> set ls. val < l"
  shows "scan_leftovers (cors[i := (cors ! i)[j := v]]) thr cl val ls members
       = scan_leftovers cors thr cl val ls members"
  using assms(2)
proof (induction ls arbitrary: members)
  case Nil
  show ?case by simp
next
  case (Cons l ls)
  from Cons.prems have "val < l" by simp
  with assms(1) have "val = i \<Longrightarrow> l \<noteq> j" by auto
  then have "list_get (cors[i := (cors ! i)[j := v]]) val = Inr r' \<Longrightarrow>
      \<exists>r. list_get cors val = Inr r \<and> list_get r' l = list_get r l" for r'
    by (cases "val = i") (auto simp: list_get_def split: if_splits)
  moreover have "list_get (cors[i := (cors ! i)[j := v]]) val = Inl e
      \<longleftrightarrow> list_get cors val = Inl e" for e
    by (auto simp: list_get_def)
  ultimately show ?case using Cons
    by (auto split: sum.splits)
qed

lemma group_loop_lower_update:
  assumes "j \<le> i"
  shows "group_loop data (cors[i := (cors ! i)[j := v]]) thr cl cols val s
       = group_loop data cors thr cl cols val s"
proof (induction cols arbitrary: val s)
  case Nil
  show ?case by simp
next
  case (Cons col cols)
  have "scan_leftovers (cors[i := (cors ! i)[j := v]]) thr cl val [val + 1..<length cl] [col]
      = scan_leftovers cors thr cl val [val + 1..<length cl] [col]"
    by (rule scan_leftovers_lower_update [OF assms]) simp
  then show ?case using Cons.IH
    by (simp add: Let_def split: sum.splits)
qed

text \<open>
  C10. Overwriting an entry \<open>cors[i][j]\<close> on or below the diagonal (\<open>j \<le> i\<close>) with any
  value changes nothing in what \<open>group_columns\<close> returns: neither the grouped dataset, nor
  the group assignment, nor an error.
\<close>

theorem group_columns_ignores_lower_triangle:
  "j \<le> i \<Longrightarrow>
   group_columns data (cors[i := (cors ! i)[j := v]]) cor_threshold
     = group_columns data cors cor_threshold"
  by (simp add: group_columns_def group_loop_lower_update split: list.splits)

theorem group_columns_ignores_lower_triangle_witness:
  "(1::nat) \<le> 2 \<and>
   group_columns abc_data (ab_cors[2 := (ab_cors ! 2)[1 := NaN]]) (Num (1 / 2))
     = group_columns abc_data ab_cors (Num (1 / 2)) \<and>
   ab_cors[2 := (ab_cors ! 2)[1 := NaN]] \<noteq> ab_cors \<and>
   group_columns abc_data ab_cors (Num (1 / 2))
     = Inr ([[(''Group 1'', Number 1), (''Group 2'', Number 10)],
             [(''Group 1'', Number 2), (''Group 2'', Number 1)],
             [(''Group 1'', Number 3), (''Group 2'', Number 5)]],
            [(''Group 1'', [''a'', ''b'']), (''Group 2'', [''c''])])"
proof -
  have le: "(1::nat) \<le> 2" by simp
  have run: "group_columns abc_data ab_cors (Num (1 / 2))
     = Inr ([[(''Group 1'', Number 1), (''Group 2'', Number 10)],
             [(''Group 1'', Number 2), (''Group 2'', Number 1)],
             [(''Group 1'', Number 3), (''Group 2'', Number 5)]],
            [(''Group 1'', [''a'', ''b'']), (''Group 2'', [''c''])])"
    by (simp add: run_defs abc_data_def ab_cors_def)
  have diff: "ab_cors[2 := (ab_cors ! 2)[1 := NaN]] \<noteq> ab_cors"
    by (simp add: ab_cors_def)
  from group_columns_ignores_lower_triangle [OF le, of abc_data ab_cors NaN "Num (1 / 2)"]
    le run diff
  show ?thesis by simp
qed

section \<open>The number of groups\<close>

lemma star_low:
  "group_columns abcd_data star_cors (Num (2 / 5))
     = Inr ([[(''Group 1'', Number 1), (''Group 2'', Number 3), (''Group 3'', Number 4)],
             [(''Group 1'', Number 5), (''Group 2'', Number 7), (''Group 3'', Number 8)]],
            [(''Group 1'', [''a'', ''b'']), (''Group 2'', [''c'']), (''Group 3'', [''d''])])"
  by (simp add: run_defs abcd_data_def star_cors_def)

lemma star_mid:
  "group_columns abcd_data star_cors (Num (11 / 20))
     = Inr ([[(''Group 1'', Number 1), (''Group 2'', Number 2)],
             [(''Group 1'', Number 5), (''Group 2'', Number 6)]],
            [(''Group 1'', [''a'']), (''Group 2'', [''b'', ''c'', ''d''])])"
  by (simp add: run_defs abcd_data_def star_cors_def)

lemma star_high:
  "group_columns abcd_data star_cors (Num (3 / 5))
     = Inr ([[(''Group 1'', Number 1), (''Group 2'', Number 2), (''Group 3'', Number 3),
              (''Group 4'', Number 4)],
             [(''Group 1'', Number 5), (''Group 2'', Number 6), (''Group 3'', Number 7),
              (''Group 4'', Number 8)]],
            [(''Group 1'', [''a'']), (''Group 2'', [''b'']), (''Group 3'', [''c'']),
             (''Group 4'', [''d''])])"
  by (simp add: run_defs abcd_data_def star_cors_def)

lemma star_none_above:
  "\<forall>i j. i < j \<and> j < length (keys (hd abcd_data)) \<longrightarrow>
     \<not> float_gt (star_cors ! i ! j) (Num (3 / 5))"
proof (intro allI impI)
  fix i j :: nat
  assume a: "i < j \<and> j < length (keys (hd abcd_data))"
  then have "j < 4" by (simp add: abcd_data_def keys_def)
  then have "j = 0 \<or> j = 1 \<or> j = 2 \<or> j = 3" by linarith
  moreover from a have "i < j" by simp
  ultimately have "(i, j) \<in> {(0, 1), (0, 2), (0, 3), (1, 2), (1, 3), (2, 3)}"
    by auto
  then show "\<not> float_gt (star_cors ! i ! j) (Num (3 / 5))"
    by (auto simp: star_cors_def)
qed

lemma nth_notin_take:
  "distinct cl \<Longrightarrow> val < length cl \<Longrightarrow> cl ! val \<notin> set (take val cl)"
  by (auto simp: in_set_conv_nth nth_eq_iff_index_eq)

lemma absorbed_none:
  "\<forall>i j. i < j \<and> j < length cl \<longrightarrow> \<not> float_gt (cors ! i ! j) thr \<Longrightarrow>
   absorbed cors thr cl val = []"
  by (auto simp: absorbed_def filter_empty_conv)

lemma group_loop_singletons:
  "group_loop data cors thr cl cols val s = Inr s' \<Longrightarrow> labels_ok s \<Longrightarrow> cols = drop val cl \<Longrightarrow>
   distinct cl \<Longrightarrow> group_cols s = set (take val cl) \<Longrightarrow>
   \<forall>i j. i < j \<and> j < length cl \<longrightarrow> \<not> float_gt (cors ! i ! j) thr \<Longrightarrow>
   group_label s' = group_label s + length cols"
proof (induction cols arbitrary: val s)
  case Nil
  then show ?case by simp
next
  case (Cons col cols)
  from drop_ConsD [OF Cons.prems(3)]
  have v: "val < length cl" and c: "col = cl ! val" and d: "cols = drop (Suc val) cl"
    by simp_all
  from nth_notin_take [OF Cons.prems(4) v] c Cons.prems(5)
  have nf: "col \<notin> group_cols s" by simp
  from group_loop_found [OF nf Cons.prems(1)]
  obtain group_vals members where
    sc: "scan_leftovers cors thr cl val [val + 1..<length cl] [col] = Inr members" and
    lp: "group_loop data cors thr cl cols (Suc val)
           \<lparr>group_label = group_label s + 1,
            group_labels_with_columns =
              dict_set (group_labels_with_columns s)
                (''Group '' @ str_nat (group_label s + 1)) members,
            data_grouped =
              store_group_vals (data_grouped s)
                (''Group '' @ str_nat (group_label s + 1)) group_vals\<rparr> = Inr s'"
    (is "group_loop _ _ _ _ _ _ ?s1 = _")
    by blast
  from scan_leftovers_absorbed [OF sc] c absorbed_none [OF Cons.prems(6)]
  have m: "members = [cl ! val]" by simp
  have ok1: "labels_ok ?s1" by (rule founder_step_labels_ok [OF Cons.prems(2)])
  have "group_cols ?s1 = group_cols s \<union> set members"
    by (rule founder_step_group_cols [OF Cons.prems(2)])
  with m Cons.prems(5) v have gc1: "group_cols ?s1 = set (take (Suc val) cl)"
    by (simp add: take_Suc_conv_app_nth)
  from Cons.IH [OF lp ok1 d Cons.prems(4) gc1 Cons.prems(6)]
  show ?case by simp
qed

lemma group_columns_singletons:
  assumes "group_columns data cors thr = Inr (grouped, ga)"
    and "distinct (keys (hd data))"
    and "\<forall>i j. i < j \<and> j < length (keys (hd data)) \<longrightarrow> \<not> float_gt (cors ! i ! j) thr"
  shows "length ga = max 1 (length (keys (hd data)))"
proof -
  from group_columns_InrD [OF assms(1)] obtain s' where
    l: "group_loop data cors thr (keys (hd data)) (keys (hd data)) 0 (init_state data) = Inr s'"
    and a: "ga = group_labels_with_columns s'"
    and p: "loop_post cors thr (keys (hd data)) (keys (hd data)) 0 (init_state data) s'"
    by blast
  have g0: "group_cols (init_state data) = set (take 0 (keys (hd data)))"
    by (simp add: group_cols_init)
  have d0: "keys (hd data) = drop 0 (keys (hd data))" by simp
  have "group_label (init_state data) = 0" by (simp add: init_state_def)
  with group_loop_singletons [OF l labels_ok_init d0 assms(2) g0 assms(3)]
  have "group_label s' = length (keys (hd data))" by simp
  moreover from p have "labels_ok s'" by (simp add: loop_post_def)
  ultimately show ?thesis using labels_ok_length [of s'] a by simp
qed

text \<open>
  C4, as stated, fails: with \<open>star_cors\<close>, lowering the threshold from \<open>0.55\<close> to \<open>0.4\<close> lets
  \<open>a\<close> absorb \<open>b\<close>; \<open>b\<close> then founds no group, and \<open>c\<close> and \<open>d\<close>, which only \<open>b\<close>
  absorbed, found one each. Three groups at \<open>0.4\<close>, two at \<open>0.55\<close>.
\<close>

theorem monotone_counterexample:
  "(2 / 5 :: real) < 11 / 20 \<and>
   group_columns abcd_data star_cors (Num (2 / 5))
     = Inr ([[(''Group 1'', Number 1), (''Group 2'', Number 3), (''Group 3'', Number 4)],
             [(''Group 1'', Number 5), (''Group 2'', Number 7), (''Group 3'', Number 8)]],
            [(''Group 1'', [''a'', ''b'']), (''Group 2'', [''c'']), (''Group 3'', [''d''])]) \<and>
   group_columns abcd_data star_cors (Num (11 / 20))
     = Inr ([[(''Group 1'', Number 1), (''Group 2'', Number 2)],
             [(''Group 1'', Number 5), (''Group 2'', Number 6)]],
            [(''Group 1'', [''a'']), (''Group 2'', [''b'', ''c'', ''d''])]) \<and>
   \<not> length [(''Group 1'', [''a'', ''b'']), (''Group 2'', [''c'']), (''Group 3'', [''d''])]
       \<le> length [(''Group 1'', [''a'']), (''Group 2'', [''b'', ''c'', ''d''])]"
  using star_low star_mid by simp

text \<open>
  C4, amended. For the same dataset and matrix, the number of groups at any threshold
  \<open>t1\<close> is at least one and at most the number at a threshold \<open>t2\<close> that no entry above
  the diagonal exceeds; at such a \<open>t2\<close> every column founds its own group.
\<close>

theorem group_count_bounds:
  assumes "group_columns data cors t1 = Inr (grouped1, ga1)"
    and "group_columns data cors t2 = Inr (grouped2, ga2)"
    and "distinct (keys (hd data))"
    and "\<forall>i j. i < j \<and> j < length (keys (hd data)) \<longrightarrow> \<not> float_gt (cors ! i ! j) t2"
  shows "1 \<le> length ga1 \<and> length ga1 \<le> length ga2 \<and>
         length ga2 = max 1 (length (keys (hd data)))"
  using group_columns_length [OF assms(1)] group_columns_singletons [OF assms(2,3,4)]
  by simp

theorem group_count_bounds_witness:
  "group_columns abcd_data star_cors (Num (2 / 5))
     = Inr ([[(''Group 1'', Number 1), (''Group 2'', Number 3), (''Group 3'', Number 4)],
             [(''Group 1'', Number 5), (''Group 2'', Number 7), (''Group 3'', Number 8)]],
            [(''Group 1'', [''a'', ''b'']), (''Group 2'', [''c'']), (''Group 3'', [''d''])]) \<and>
   group_columns abcd_data star_cors (Num (3 / 5))
     = Inr ([[(''Group 1'', Number 1), (''Group 2'', Number 2), (''Group 3'', Number 3),
              (''Group 4'', Number 4)],
             [(''Group 1'', Number 5), (''Group 2'', Number 6), (''Group 3'', Number 7),
              (''Group 4'', Number 8)]],
            [(''Group 1'', [''a'']), (''Group 2'', [''b'']), (''Group 3'', [''c'']),
             (''Group 4'', [''d''])]) \<and>
   distinct (keys (hd abcd_data)) \<and>
   length [(''Group 1'', [''a'', ''b'']), (''Group 2'', [''c'']), (''Group 3'', [''d''])]
     \<le> length [(''Group 1'', [''a'']), (''Group 2'', [''b'']), (''Group 3'', [''c'']),
               (''Group 4'', [''d''])] \<and>
   length [(''Group 1'', [''a'']), (''Group 2'', [''b'']), (''Group 3'', [''c'']),
           (''Group 4'', [''d''])] = max 1 (length (keys (hd abcd_data)))"
proof -
  have d: "distinct (keys (hd abcd_data))" by (simp add: abcd_data_def keys_def)
  from group_count_bounds [OF star_low star_high d star_none_above] star_low star_high d
  show ?thesis by simp
qed

section \<open>The matrix dimensions are not compared\<close>

lemma group_loop_Inl:
  "group_loop data cors thr cl cols val s = Inl e \<Longrightarrow> e = IndexError"
proof (induction cols arbitrary: val s)
  case Nil
  then show ?case by simp
next
  case (Cons col cols)
  show ?case
  proof (cases "col \<in> group_cols s")
    case True
    with Cons.prems have "group_loop data cors thr cl cols (Suc val) s = Inl e"
      by (simp only: group_loop_skip)
    then show ?thesis by (rule Cons.IH)
  next
    case False
    with Cons.prems show ?thesis
      by (auto simp: group_cols_def Let_def split: sum.splits
          dest: column_values_Inl scan_leftovers_Inl Cons.IH)
  qed
qed

lemma group_loop_ok:
  "\<forall>r \<in> set data. length cl \<le> length r \<Longrightarrow> length cl \<le> length cors \<Longrightarrow>
   \<forall>i < length cl. length cl \<le> length (cors ! i) \<Longrightarrow> cols = drop val cl \<Longrightarrow>
   \<exists>s'. group_loop data cors thr cl cols val s = Inr s'"
proof (induction cols arbitrary: val s)
  case Nil
  show ?case by simp
next
  case (Cons col cols)
  from drop_ConsD [OF Cons.prems(4)]
  have v: "val < length cl" and d: "cols = drop (Suc val) cl" by simp_all
  from Cons.prems(1) v have "\<forall>r \<in> set data. val < length r" by auto
  from column_values_ok [OF this] obtain group_vals where
    cv: "column_values data val = Inr group_vals" by blast
  from Cons.prems(2) v have vc: "val < length cors" by simp
  from Cons.prems(3) v have "\<forall>l \<in> set [val + 1..<length cl]. l < length (cors ! val)"
    by auto
  from scan_leftovers_ok [OF vc this] obtain members where
    sc: "scan_leftovers cors thr cl val [val + 1..<length cl] [col] = Inr members" by blast
  note ih = Cons.IH [OF Cons.prems(1,2,3) d]
  show ?case
  proof (cases "col \<in> group_cols s")
    case True
    with ih [of s] show ?thesis by (simp only: group_loop_skip)
  next
    case False
    with cv sc ih show ?thesis
      by (simp add: group_cols_def Let_def)
  qed
qed

text \<open>
  C5, as stated, fails: the three-column dataset with the four-by-four matrix
  \<open>star_cors\<close>, and with a matrix of a single row, is grouped without any error.
\<close>

theorem dimension_mismatch_counterexample:
  "length star_cors \<noteq> length (keys (hd abc_data)) \<and>
   group_columns abc_data star_cors (Num (2 / 5))
     = Inr ([[(''Group 1'', Number 1), (''Group 2'', Number 10)],
             [(''Group 1'', Number 2), (''Group 2'', Number 1)],
             [(''Group 1'', Number 3), (''Group 2'', Number 5)]],
            [(''Group 1'', [''a'', ''b'']), (''Group 2'', [''c''])]) \<and>
   length [[Num 1, Num 1, Num 1]] \<noteq> length (keys (hd abc_data)) \<and>
   group_columns abc_data [[Num 1, Num 1, Num 1]] (Num (2 / 5))
     = Inr ([[(''Group 1'', Number 1)], [(''Group 1'', Number 2)], [(''Group 1'', Number 3)]],
            [(''Group 1'', [''a'', ''b'', ''c''])])"
  by (simp add: run_defs abc_data_def star_cors_def)

text \<open>
  C5, amended. Called with a float threshold and a matrix of floats, \<open>group_columns\<close>
  does not compare dimensions. Its only failure then is an \<^verbatim>\<open>IndexError\<close>, and it returns
  a result whenever the dataset has a row, every row has at least as many cells as the
  first, and the matrix has at least as many rows and columns as the first row has cells;
  a larger matrix is accepted.
\<close>

theorem no_dimension_check:
  fixes cors :: "pyfloat list list" and cor_threshold :: pyfloat
  shows
  "(group_columns data cors cor_threshold = Inl e \<longrightarrow> e = IndexError) \<and>
   (data \<noteq> [] \<and> (\<forall>r \<in> set data. length (hd data) \<le> length r) \<and>
    length (hd data) \<le> length cors \<and>
    (\<forall>i < length (hd data). length (hd data) \<le> length (cors ! i))
    \<longrightarrow> (\<exists>res. group_columns data cors cor_threshold = Inr res))"
proof (intro conjI impI)
  assume "group_columns data cors cor_threshold = Inl e"
  then show "e = IndexError"
    by (auto simp: group_columns_def split: list.splits sum.splits dest: group_loop_Inl)
next
  assume a: "data \<noteq> [] \<and> (\<forall>r \<in> set data. length (hd data) \<le> length r) \<and>
    length (hd data) \<le> length cors \<and>
    (\<forall>i < length (hd data). length (hd data) \<le> length (cors ! i))"
  have k: "length (keys (hd data)) = length (hd data)" by (simp add: keys_def)
  from a k have 1: "\<forall>r \<in> set data. length (keys (hd data)) \<le> length r"
    and 2: "length (keys (hd data)) \<le> length cors"
    and 3: "\<forall>i < length (keys (hd data)). length (keys (hd data)) \<le> length (cors ! i)"
    by simp_all
  have 4: "keys (hd data) = drop 0 (keys (hd data))" by simp
  from group_loop_ok [OF 1 2 3 4] obtain s' where
    "group_loop data cors cor_threshold (keys (hd data)) (keys (hd data)) 0 (init_state data)
       = Inr s'" by blast
  with a show "\<exists>res. group_columns data cors cor_threshold = Inr res"
    by (cases data) (simp_all add: group_columns_def)
qed

theorem no_dimension_check_witness:
  "group_columns abc_data [] (Num (2 / 5)) = Inl IndexError \<and>
   abc_data \<noteq> [] \<and> length (hd abc_data) \<le> length star_cors \<and>
   length (hd abc_data) \<noteq> length star_cors \<and>
   group_columns abc_data star_cors (Num (2 / 5))
     = Inr ([[(''Group 1'', Number 1), (''Group 2'', Number 10)],
             [(''Group 1'', Number 2), (''Group 2'', Number 1)],
             [(''Group 1'', Number 3), (''Group 2'', Number 5)]],
            [(''Group 1'', [''a'', ''b'']), (''Group 2'', [''c''])])"
proof -
  have f: "group_columns abc_data [] (Num (2 / 5)) = Inl IndexError"
    by (simp add: run_defs abc_data_def)
  have ne: "abc_data \<noteq> []" and len: "length (hd abc_data) = 3" and lc: "length star_cors = 4"
    by (simp_all add: abc_data_def star_cors_def)
  have rows: "\<forall>r \<in> set abc_data. length (hd abc_data) \<le> length r"
    by (simp add: abc_data_def)
  have cols: "\<forall>i < length (hd abc_data). length (hd abc_data) \<le> length (star_cors ! i)"
  proof (intro allI impI)
    fix i assume "i < length (hd abc_data)"
    with len have "i = 0 \<or> i = 1 \<or> i = 2" by linarith
    then show "length (hd abc_data) \<le> length (star_cors ! i)"
      by (auto simp: len star_cors_def)
  qed
  have run: "group_columns abc_data star_cors (Num (2 / 5))
     = Inr ([[(''Group 1'', Number 1), (''Group 2'', Number 10)],
             [(''Group 1'', Number 2), (''Group 2'', Number 1)],
             [(''Group 1'', Number 3), (''Group 2'', Number 5)]],
            [(''Group 1'', [''a'', ''b'']), (''Group 2'', [''c''])])"
    by (simp add: run_defs abc_data_def star_cors_def)
  from no_dimension_check [of abc_data "[]" "Num (2 / 5)" IndexError]
    no_dimension_check [of abc_data star_cors "Num (2 / 5)" IndexError]
    f ne len lc rows cols run
  show ?thesis by simp
qed

section \<open>The datasets that correlation\_matrix accepts\<close>

lemma as_reals_ok:
  "\<forall>v \<in> set vs. \<exists>x. v = Number x \<Longrightarrow> \<exists>xs. as_reals vs = Inr xs"
proof (induction vs)
  case Nil
  show ?case by simp
next
  case (Cons v vs)
  then obtain x xs where "v = Number x" and "as_reals vs = Inr xs" by auto
  then show ?case by simp
qed

lemma row_value_in_row: "row_value r val = Inr v \<Longrightarrow> v \<in> snd ` set r"
  by (auto simp: row_value_def dict_get_def list_get_def
      split: if_splits option.splits dest!: map_of_SomeD intro: rev_image_eqI)

lemma column_values_numeric:
  "column_values data val = Inr vs \<Longrightarrow>
   \<forall>r \<in> set data. \<forall>c \<in> set r. \<exists>x. snd c = Number x \<Longrightarrow>
   \<forall>v \<in> set vs. \<exists>x. v = Number x"
proof (induction data arbitrary: vs)
  case Nil
  then show ?case by simp
next
  case (Cons r rs)
  from Cons.prems(1) obtain v vs' where
    rv: "row_value r val = Inr v" and cv: "column_values rs val = Inr vs'" and e: "vs = v # vs'"
    by (auto split: sum.splits)
  from row_value_in_row [OF rv] Cons.prems(2) have "\<exists>x. v = Number x" by auto
  moreover from Cons.IH [OF cv] Cons.prems(2) have "\<forall>v \<in> set vs'. \<exists>x. v = Number x" by simp
  ultimately show ?case using e by simp
qed

lemma corrcoef_ok:
  "\<forall>v \<in> set x. \<exists>a. v = Number a \<Longrightarrow> \<forall>v \<in> set y. \<exists>a. v = Number a \<Longrightarrow>
   \<exists>c. corrcoef x y = Inr c"
proof -
  assume "\<forall>v \<in> set x. \<exists>a. v = Number a" and "\<forall>v \<in> set y. \<exists>a. v = Number a"
  from as_reals_ok [OF this(1)] as_reals_ok [OF this(2)]
  obtain xs ys where "as_reals x = Inr xs" and "as_reals y = Inr ys" by blast
  then show ?thesis by (simp add: corrcoef_def)
qed

lemma col_cors_loop_ok:
  assumes shape: "\<forall>r \<in> set data. n \<le> length r"
    and numeric: "\<forall>r \<in> set data. \<forall>c \<in> set r. \<exists>x. snd c = Number x"
    and i: "i < n"
  shows "\<forall>j \<in> set js. j < n \<Longrightarrow>
         \<exists>cs. col_cors_loop data i js = Inr cs \<and> length cs = length js"
proof (induction js)
  case Nil
  show ?case by simp
next
  case (Cons j js)
  from shape i have "\<forall>r \<in> set data. i < length r" by auto
  from column_values_ok [OF this] obtain x where x: "column_values data i = Inr x" by blast
  from Cons.prems shape have "\<forall>r \<in> set data. j < length r" by auto
  from column_values_ok [OF this] obtain y where y: "column_values data j = Inr y" by blast
  from corrcoef_ok [OF column_values_numeric [OF x numeric] column_values_numeric [OF y numeric]]
  obtain c where c: "corrcoef x y = Inr c" by blast
  from Cons obtain cs where "col_cors_loop data i js = Inr cs" and "length cs = length js"
    by auto
  with x y c show ?case by simp
qed

lemma correlations_loop_ok:
  assumes shape: "\<forall>r \<in> set data. n \<le> length r"
    and numeric: "\<forall>r \<in> set data. \<forall>c \<in> set r. \<exists>x. snd c = Number x"
  shows "\<forall>i \<in> set is. i < n \<Longrightarrow>
         \<exists>m. correlations_loop data n is = Inr m \<and> length m = length is \<and>
             (\<forall>row \<in> set m. length row = n)"
proof (induction "is")
  case Nil
  show ?case by simp
next
  case (Cons i "is")
  from Cons.prems have i: "i < n" by simp
  have "\<forall>j \<in> set [0..<n]. j < n" by simp
  from col_cors_loop_ok [OF shape numeric i this]
  obtain cs where cs: "col_cors_loop data i [0..<n] = Inr cs" and lcs: "length cs = n"
    by auto
  from Cons obtain m where "correlations_loop data n is = Inr m" and "length m = length is"
    and "\<forall>row \<in> set m. length row = n" by auto
  with cs lcs show ?case by simp
qed

lemma mixed_matrix: "correlation_matrix mixed_data = Inr [[Num 1, Num 1], [Num 1, Num 1]]"
proof -
  have ne: "mixed_data \<noteq> []" and len: "length (hd mixed_data) = 2"
    by (simp_all add: mixed_data_def)
  have c: "column_values mixed_data 0 = Inr [Number 1, Number 2, Number 3]"
    "column_values mixed_data (Suc 0) = Inr [Number 2, Number 4, Number 6]"
    by (simp_all add: mixed_data_def keys_def row_value_def list_get_def dict_get_def)
  have "correlation_matrix mixed_data = correlations_loop mixed_data 2 [0..<2]"
    by (simp only: correlation_matrix_nonempty [OF ne] len)
  also have "\<dots> = Inr [[Num 1, Num 1], [Num 1, Num 1]]"
    by (simp add: upt_conv_Cons c corrcoef_def pearson_ab)
  finally show ?thesis .
qed

text \<open>
  C6, as stated, fails: rows with different keys are read by position and give a
  matrix, and a dataset of one row without columns gives the empty matrix.
\<close>

theorem data_shape_counterexample:
  "''a'' \<in> set (keys (mixed_data ! 0)) \<and> ''a'' \<notin> set (keys (mixed_data ! 1)) \<and>
   correlation_matrix mixed_data = Inr [[Num 1, Num 1], [Num 1, Num 1]] \<and>
   correlation_matrix [[]] = Inr []"
proof -
  have "''a'' \<in> set (keys (mixed_data ! 0)) \<and> ''a'' \<notin> set (keys (mixed_data ! 1))"
    by (simp add: mixed_data_def keys_def)
  moreover have "correlation_matrix [[]] = Inr []" by (simp add: correlation_matrix_def)
  ultimately show ?thesis using mixed_matrix by simp
qed

text \<open>
  C6, amended. On a dataset without rows \<open>correlation_matrix\<close> fails with an
  \<^verbatim>\<open>IndexError\<close>. On a dataset with a row, whose rows all have at least as many cells as
  the first and whose cells are all \<open>Number\<close>s (finite floats and ints that fit 64 bits),
  it returns a square matrix of the size of the first row, whatever the keys of the rows
  are and also when the first row is empty.
\<close>

theorem correlation_matrix_shape:
  "correlation_matrix [] = Inl IndexError \<and>
   (data \<noteq> [] \<and> (\<forall>r \<in> set data. length (hd data) \<le> length r) \<and>
    (\<forall>r \<in> set data. \<forall>c \<in> set r. \<exists>x. snd c = Number x)
    \<longrightarrow> (\<exists>m. correlation_matrix data = Inr m \<and> length m = length (hd data) \<and>
              (\<forall>row \<in> set m. length row = length (hd data))))"
proof (intro conjI impI)
  show "correlation_matrix [] = Inl IndexError" by (simp add: correlation_matrix_def)
next
  assume a: "data \<noteq> [] \<and> (\<forall>r \<in> set data. length (hd data) \<le> length r) \<and>
    (\<forall>r \<in> set data. \<forall>c \<in> set r. \<exists>x. snd c = Number x)"
  then have ne: "data \<noteq> []" and shape: "\<forall>r \<in> set data. length (hd data) \<le> length r"
    and numeric: "\<forall>r \<in> set data. \<forall>c \<in> set r. \<exists>x. snd c = Number x"
    by simp_all
  have "\<forall>i \<in> set [0..<length (hd data)]. i < length (hd data)" by simp
  from correlations_loop_ok [OF shape numeric this]
  show "\<exists>m. correlation_matrix data = Inr m \<and> length m = length (hd data) \<and>
              (\<forall>row \<in> set m. length row = length (hd data))"
    by (simp add: correlation_matrix_nonempty [OF ne])
qed

theorem correlation_matrix_shape_witness:
  "correlation_matrix [] = Inl IndexError \<and> mixed_data \<noteq> [] \<and>
   correlation_matrix mixed_data = Inr [[Num 1, Num 1], [Num 1, Num 1]] \<and>
   length [[Num 1, Num 1], [Num 1, Num 1]] = length (hd mixed_data)"
proof -
  have ne: "mixed_data \<noteq> []" by (simp add: mixed_data_def)
  have shape: "\<forall>r \<in> set mixed_data. length (hd mixed_data) \<le> length r"
    by (simp add: mixed_data_def)
  have numeric: "\<forall>r \<in> set mixed_data. \<forall>c \<in> set r. \<exists>x. snd c = Number x"
    by (simp add: mixed_data_def)
  from correlation_matrix_shape [of mixed_data] ne shape numeric mixed_matrix
  show ?thesis by auto
qed

section \<open>Mirrored entries of the correlation matrix\<close>








end
